theory Spec2Isabelle
  imports Complex_Main
begin

section \<open>Numbers, arrays and errors\<close>

text \<open>
  The notebooks compute with numpy arrays of double-precision numbers. The geometry,
  topography, erosion, uplift and precipitation processes are embedded in exact real
  arithmetic: rounding and overflow are outside their model. The water table, whose
  square root reacts to rounding, takes the double operations as a parameter. Division
  is the division of the reals, so every theorem about a quotient carries the hypothesis
  that its divisor is not zero (numpy returns \<open>inf\<close> or \<open>nan\<close> there, HOL returns 0).
  The exceptions that Python and numpy raise are values of \<open>py_error\<close>.
\<close>

datatype py_error = IndexError | ValueError

text \<open>
  A model input declared with \<open>dims=[(),'x']\<close> is a scalar or a one-dimensional array;
  the start value of Python's \<open>sum\<close> is a scalar as well.
\<close>

datatype ndarray = Scalar real | Array "real list"

text \<open>
  \<open>np.broadcast_to(v, n).flatten()\<close>: a scalar and an array of length 1 are repeated,
  an array of length \<open>n\<close> is kept, any other length and a negative \<open>n\<close> raise ValueError.
\<close>

fun broadcast_to :: "ndarray \<Rightarrow> int \<Rightarrow> py_error + real list" where
  "broadcast_to (Scalar v) n =
     (if n < 0 then Inl ValueError else Inr (replicate (nat n) v))"
| "broadcast_to (Array xs) n =
     (if n < 0 then Inl ValueError
      else if length xs = nat n then Inr xs
      else if length xs = 1 then Inr (replicate (nat n) (xs ! 0))
      else Inl ValueError)"

text \<open>
  \<open>np.linspace(start, stop, num)\<close> with the default \<open>endpoint=True\<close>: a negative
  \<open>num\<close> raises ValueError; otherwise sample \<open>i\<close> is \<open>i * step + start\<close> with
  \<open>step = (stop - start) / (num - 1)\<close>, and for \<open>num > 1\<close> the last sample is
  overwritten with \<open>stop\<close>. For \<open>num = 1\<close> numpy multiplies the sample index 0 by
  \<open>stop - start\<close>, so the single sample is \<open>start\<close>.
\<close>

definition linspace :: "real \<Rightarrow> real \<Rightarrow> int \<Rightarrow> py_error + real list" where
  "linspace start stop num =
     (if num < 0 then Inl ValueError
      else let n = nat num;
               step = (stop - start) / real_of_int (num - 1);
               y = map (\<lambda>i. real i * step + start) [0..<n]
           in Inr (if 1 < n then y[n - 1 := stop] else y))"

section \<open>The geometry process\<close>

text \<open>
  \<open>Geom\<close> has the inputs \<open>length\<close>, \<open>slope\<close> and \<open>nx\<close>; \<open>initialize\<close> writes
  \<open>Erosion.L\<close> and \<open>Topography.elevation\<close>, returned here as a pair.
\<close>

record Geom =
  Geom_length :: real
  Geom_slope :: real
  Geom_nx :: int

definition Geom_initialize :: "Geom \<Rightarrow> py_error + (real \<times> real list)" where
  "Geom_initialize g =
     (case linspace 0 (Geom_length g) (Geom_nx g) of
        Inl e \<Rightarrow> Inl e
      | Inr z \<Rightarrow> Inr (Geom_length g, z))"

section \<open>Array operations\<close>

text \<open>
  Elementwise arithmetic on arrays of one length, and the product of a scalar with an
  array. The processes below apply them to slices of equal length only.
\<close>

definition vadd :: "real list \<Rightarrow> real list \<Rightarrow> real list" where
  "vadd xs ys = map2 (+) xs ys"

definition vsub :: "real list \<Rightarrow> real list \<Rightarrow> real list" where
  "vsub xs ys = map2 (-) xs ys"

definition vmul :: "real list \<Rightarrow> real list \<Rightarrow> real list" where
  "vmul xs ys = map2 (*) xs ys"

definition smul :: "real \<Rightarrow> real list \<Rightarrow> real list" where
  "smul c xs = map (\<lambda>x. c * x) xs"

text \<open>
  The slices \<open>a[:-2]\<close>, \<open>a[1:-1]\<close> and \<open>a[2:]\<close>. On the naturals \<open>n - 2\<close> and
  \<open>n - 1\<close> stop at 0, as Python's slices do on arrays shorter than 2.
\<close>

definition slice_to_m2 :: "'a list \<Rightarrow> 'a list" where
  "slice_to_m2 a = take (length a - 2) a"

definition slice_1_m1 :: "'a list \<Rightarrow> 'a list" where
  "slice_1_m1 a = drop 1 (take (length a - 1) a)"

definition slice_from_2 :: "'a list \<Rightarrow> 'a list" where
  "slice_from_2 a = drop 2 a"

text \<open>
  \<open>a[1:-1] = v\<close> in place: \<open>v\<close> must have the length of the slice, or length 1 (it is
  then repeated); otherwise numpy raises ValueError.
\<close>

definition set_slice_1_m1 :: "real list \<Rightarrow> real list \<Rightarrow> py_error + real list" where
  "set_slice_1_m1 a v =
     (let m = length (slice_1_m1 a)
      in if length v = m then Inr (take 1 a @ v @ drop (1 + m) a)
         else if length v = 1 then Inr (take 1 a @ replicate m (v ! 0) @ drop (1 + m) a)
         else Inl ValueError)"

text \<open>\<open>a[0] = v\<close> and \<open>a[-1] = a[-2]\<close> in place; an index out of range raises IndexError.\<close>

definition set_first :: "real list \<Rightarrow> real \<Rightarrow> py_error + real list" where
  "set_first a v = (if a = [] then Inl IndexError else Inr (a[0 := v]))"

definition copy_last :: "real list \<Rightarrow> py_error + real list" where
  "copy_last a =
     (if length a < 2 then Inl IndexError
      else Inr (a[length a - 1 := a ! (length a - 2)]))"

text \<open>
  The sum of two values with numpy's broadcasting: a scalar and an array of length 1
  stretch to the other operand, two arrays of different lengths raise ValueError.
\<close>

fun np_add :: "ndarray \<Rightarrow> ndarray \<Rightarrow> py_error + ndarray" where
  "np_add (Scalar a) (Scalar b) = Inr (Scalar (a + b))"
| "np_add (Scalar a) (Array ys) = Inr (Array (map (\<lambda>y. a + y) ys))"
| "np_add (Array xs) (Scalar b) = Inr (Array (map (\<lambda>x. x + b) xs))"
| "np_add (Array xs) (Array ys) =
     (if length xs = length ys then Inr (Array (vadd xs ys))
      else if length xs = 1 then Inr (Array (map (\<lambda>y. xs ! 0 + y) ys))
      else if length ys = 1 then Inr (Array (map (\<lambda>x. x + ys ! 0) xs))
      else Inl ValueError)"

text \<open>Python's \<open>sum\<close>: the items are added from the left to the start value 0.\<close>

fun py_sum_from :: "ndarray \<Rightarrow> real list list \<Rightarrow> py_error + ndarray" where
  "py_sum_from acc [] = Inr acc"
| "py_sum_from acc (d # ds) =
     (case np_add acc (Array d) of
        Inl e \<Rightarrow> Inl e
      | Inr acc' \<Rightarrow> py_sum_from acc' ds)"

definition py_sum :: "real list list \<Rightarrow> py_error + ndarray" where
  "py_sum ds = py_sum_from (Scalar 0) ds"

section \<open>The topography process\<close>

text \<open>
  \<open>Topography\<close> owns \<open>elevation\<close> and reads the group \<open>dtopo\<close>, the increments that
  the other processes publish. \<open>run_step\<close> adds their sum and copies the value before the
  last node onto the last node.
\<close>

definition Topography_run_step :: "real list \<Rightarrow> real list list \<Rightarrow> py_error + real list" where
  "Topography_run_step elevation dtopo =
     (case py_sum dtopo of
        Inl e \<Rightarrow> Inl e
      | Inr incs \<Rightarrow>
          (case np_add (Array elevation) incs of
             Inl e \<Rightarrow> Inl e
           | Inr (Scalar v) \<Rightarrow> Inl IndexError
           | Inr (Array elevation') \<Rightarrow> copy_last elevation'))"

section \<open>The erosion process\<close>

record Erosion =
  Erosion_kd :: ndarray
  Erosion_surface :: "real list"
  Erosion_L :: real
  Erosion_dx :: real
  Erosion_dtopo :: "real list"

text \<open>\<open>initialize\<close> sets \<open>dx = L / (len(surface) - 1)\<close> and \<open>dtopo\<close> to zeros.\<close>

definition Erosion_initialize :: "Erosion \<Rightarrow> Erosion" where
  "Erosion_initialize e =
     e\<lparr>Erosion_dx := Erosion_L e / real_of_int (int (length (Erosion_surface e)) - 1),
       Erosion_dtopo := replicate (length (Erosion_surface e)) 0\<rparr>"

text \<open>
  \<open>run_step\<close> writes the interior of \<open>dtopo\<close> from slices of \<open>surface\<close> and of the
  broadcast \<open>kd\<close>, then sets \<open>dtopo[0] = 0\<close> and \<open>dtopo[-1] = dtopo[-2]\<close>.
\<close>

definition Erosion_run_step :: "real \<Rightarrow> Erosion \<Rightarrow> py_error + Erosion" where
  "Erosion_run_step dt e =
     (let surface = Erosion_surface e
      in case broadcast_to (Erosion_kd e) (int (length surface)) of
           Inl err \<Rightarrow> Inl err
         | Inr kd_var \<Rightarrow>
             (case set_slice_1_m1 (Erosion_dtopo e)
                     (smul (dt / (Erosion_dx e)\<^sup>2 / 2)
                        (vsub
                           (vmul (vsub (slice_to_m2 surface) (slice_1_m1 surface))
                                 (vadd (slice_to_m2 kd_var) (slice_1_m1 kd_var)))
                           (vmul (vsub (slice_1_m1 surface) (slice_from_2 surface))
                                 (vadd (slice_1_m1 kd_var) (slice_from_2 kd_var))))) of
                Inl err \<Rightarrow> Inl err
              | Inr d1 \<Rightarrow>
                  (case set_first d1 0 of
                     Inl err \<Rightarrow> Inl err
                   | Inr d2 \<Rightarrow>
                       (case copy_last d2 of
                          Inl err \<Rightarrow> Inl err
                        | Inr d3 \<Rightarrow> Inr (e\<lparr>Erosion_dtopo := d3\<rparr>)))))"

section \<open>The uplift process\<close>

text \<open>
  \<open>Uplift.run_step\<close> reads \<open>rate\<close> and \<open>Geom.nx\<close> and returns the new \<open>dtopo\<close>:
  \<open>dt * u_var\<close> with the first node set to 0.
\<close>

definition Uplift_run_step :: "real \<Rightarrow> ndarray \<Rightarrow> int \<Rightarrow> py_error + real list" where
  "Uplift_run_step dt rate nx =
     (case broadcast_to rate nx of
        Inl err \<Rightarrow> Inl err
      | Inr u_var \<Rightarrow> set_first (smul dt u_var) 0)"

section \<open>The precipitation process\<close>

text \<open>
  \<open>integrate\<close>: on a copy of \<open>x\<close>, for \<open>i\<close> from \<open>len - 1\<close> down to 1,
  \<open>integ[i - 1] = integ[i - 1] + integ[i]\<close>. The loop runs over the indices of
  \<open>range(len(integ) - 1, 0, -1)\<close>, which is empty for an array of length 0 or 1.
\<close>

fun integrate_loop :: "nat list \<Rightarrow> real list \<Rightarrow> real list" where
  "integrate_loop [] integ = integ"
| "integrate_loop (i # rest) integ =
     integrate_loop rest (integ[i - 1 := integ ! (i - 1) + integ ! i])"

definition integrate :: "real list \<Rightarrow> real list" where
  "integrate x = integrate_loop (rev [1..<length x]) x"

definition Precipitation_run_step :: "ndarray \<Rightarrow> real \<Rightarrow> int \<Rightarrow> py_error + real list" where
  "Precipitation_run_step rate dx nx =
     (case broadcast_to rate nx of
        Inl err \<Rightarrow> Inl err
      | Inr r \<Rightarrow> Inr (integrate (map (\<lambda>x. x * dx) r)))"

section \<open>The water table\<close>

text \<open>
  \<open>computeHydro\<close> takes the square root of \<open>b ** 2 - 4 * c\<close>, whose sign depends on how
  each double-precision operation rounds, so this part of the model does not use the
  arithmetic of the reals. The double operations are a parameter \<open>fp\<close>: the four basic
  operations, \<open>x ** 2\<close> (numpy calls the C library's \<open>pow\<close> on a scalar) and the square
  root of a nonnegative number. A double is the real number it stands for; negation and
  comparison are exact; overflow to \<open>inf\<close> is outside the model.
\<close>

record fpu =
  fp_add :: "real \<Rightarrow> real \<Rightarrow> real"
  fp_sub :: "real \<Rightarrow> real \<Rightarrow> real"
  fp_mul :: "real \<Rightarrow> real \<Rightarrow> real"
  fp_div :: "real \<Rightarrow> real \<Rightarrow> real"
  fp_pow2 :: "real \<Rightarrow> real"
  fp_sqrt :: "real \<Rightarrow> real"

text \<open>
  The arithmetic without rounding. Double arithmetic agrees with it on every operation
  whose operands and result are integers of magnitude below \<open>2\<^sup>5\<^sup>3\<close>.
\<close>

definition exact_fpu :: fpu where
  "exact_fpu = \<lparr>fp_add = (+), fp_sub = (-), fp_mul = (*), fp_div = (/),
                 fp_pow2 = (\<lambda>x. x\<^sup>2), fp_sqrt = sqrt\<rparr>"

text \<open>
  \<open>np.sqrt\<close> of a negative number is \<open>nan\<close> (with a warning, not an exception), and
  \<open>nan\<close> spreads through arithmetic and makes every comparison false. The water table is
  therefore an array of \<open>npfloat\<close>: a number or \<open>NaN\<close>.
\<close>

datatype npfloat = Num real | NaN

fun fadd :: "fpu \<Rightarrow> npfloat \<Rightarrow> npfloat \<Rightarrow> npfloat" where
  "fadd fp (Num a) (Num b) = Num (fp_add fp a b)"
| "fadd fp _ _ = NaN"

fun fsub :: "fpu \<Rightarrow> npfloat \<Rightarrow> npfloat \<Rightarrow> npfloat" where
  "fsub fp (Num a) (Num b) = Num (fp_sub fp a b)"
| "fsub fp _ _ = NaN"

fun fmul :: "fpu \<Rightarrow> npfloat \<Rightarrow> npfloat \<Rightarrow> npfloat" where
  "fmul fp (Num a) (Num b) = Num (fp_mul fp a b)"
| "fmul fp _ _ = NaN"

fun fdiv :: "fpu \<Rightarrow> npfloat \<Rightarrow> npfloat \<Rightarrow> npfloat" where
  "fdiv fp (Num a) (Num b) = Num (fp_div fp a b)"
| "fdiv fp _ _ = NaN"

fun fsqrt :: "fpu \<Rightarrow> npfloat \<Rightarrow> npfloat" where
  "fsqrt fp (Num a) = (if a < 0 then NaN else Num (fp_sqrt fp a))"
| "fsqrt fp NaN = NaN"

fun fgt :: "npfloat \<Rightarrow> npfloat \<Rightarrow> bool" where
  "fgt (Num a) (Num b) = (a > b)"
| "fgt _ _ = False"

fun flt :: "npfloat \<Rightarrow> npfloat \<Rightarrow> bool" where
  "flt (Num a) (Num b) = (a < b)"
| "flt _ _ = False"

text \<open>
  The body of the loop of \<open>computeHydro\<close> at node \<open>i\<close>, as a function of the previous
  node's water table \<open>hp = H[i - 1]\<close>, one double operation for each operator of the
  source, in Python's order of evaluation:
  \<^item> \<open>b = -z[i] - z[i - 1] + B[i] + B[i - 1]\<close>;
  \<^item> \<open>c = (z[i] + z[i - 1] - B[i] - B[i - 1] - H[i - 1]) * H[i - 1] - 2 * dx * accum[i] / K\<close>;
  \<^item> the discriminant \<open>b ** 2 - 4 * c\<close> under the square root;
  \<^item> \<open>H[i] = (-b + np.sqrt(...)) / 2\<close>, then the clamp to \<open>z[i]\<close> from above and to
    \<open>z[i] - B[i]\<close> from below.
\<close>

definition hydro_b :: "fpu \<Rightarrow> real list \<Rightarrow> real list \<Rightarrow> nat \<Rightarrow> real" where
  "hydro_b fp B z i =
     fp_add fp (fp_add fp (fp_sub fp (- z ! i) (z ! (i - 1))) (B ! i)) (B ! (i - 1))"

definition hydro_c ::
  "fpu \<Rightarrow> real list \<Rightarrow> real list \<Rightarrow> real list \<Rightarrow> real \<Rightarrow> real \<Rightarrow> nat \<Rightarrow> npfloat
     \<Rightarrow> npfloat" where
  "hydro_c fp B z accum dx K i hp =
     fsub fp
       (fmul fp
          (fsub fp
             (Num (fp_sub fp (fp_sub fp (fp_add fp (z ! i) (z ! (i - 1))) (B ! i)) (B ! (i - 1))))
             hp)
          hp)
       (Num (fp_div fp (fp_mul fp (fp_mul fp 2 dx) (accum ! i)) K))"

definition hydro_disc ::
  "fpu \<Rightarrow> real list \<Rightarrow> real list \<Rightarrow> real list \<Rightarrow> real \<Rightarrow> real \<Rightarrow> nat \<Rightarrow> npfloat
     \<Rightarrow> npfloat" where
  "hydro_disc fp B z accum dx K i hp =
     fsub fp (Num (fp_pow2 fp (hydro_b fp B z i)))
             (fmul fp (Num 4) (hydro_c fp B z accum dx K i hp))"

definition hydro_node ::
  "fpu \<Rightarrow> real list \<Rightarrow> real list \<Rightarrow> real list \<Rightarrow> real \<Rightarrow> real \<Rightarrow> nat \<Rightarrow> npfloat
     \<Rightarrow> npfloat" where
  "hydro_node fp B z accum dx K i hp =
     (let h = fdiv fp (fadd fp (Num (- hydro_b fp B z i))
                               (fsqrt fp (hydro_disc fp B z accum dx K i hp)))
                      (Num 2);
          h1 = (if fgt h (Num (z ! i)) then Num (z ! i) else h);
          h2 = (if flt h1 (Num (fp_sub fp (z ! i) (B ! i)))
                then Num (fp_sub fp (z ! i) (B ! i)) else h1)
      in h2)"

text \<open>
  \<open>computeHydro\<close>: \<open>H\<close> starts as a copy of \<open>z\<close>; the loop visits \<open>i = 1, ..., len(H) - 1\<close>.
  Reading \<open>B[i]\<close> or \<open>accum[i]\<close> beyond the end of a shorter array raises IndexError.
  \<open>K\<close> is a divisor: the model is meant for \<open>K \<noteq> 0\<close>.
\<close>

fun hydro_loop ::
  "fpu \<Rightarrow> real list \<Rightarrow> real list \<Rightarrow> real list \<Rightarrow> real \<Rightarrow> real \<Rightarrow> nat list
     \<Rightarrow> npfloat list \<Rightarrow> py_error + npfloat list" where
  "hydro_loop fp B z accum dx K [] H = Inr H"
| "hydro_loop fp B z accum dx K (i # rest) H =
     (if i < length B \<and> i < length accum
      then hydro_loop fp B z accum dx K rest
             (H[i := hydro_node fp B z accum dx K i (H ! (i - 1))])
      else Inl IndexError)"

definition computeHydro ::
  "fpu \<Rightarrow> real list \<Rightarrow> real list \<Rightarrow> real list \<Rightarrow> real \<Rightarrow> real
     \<Rightarrow> py_error + npfloat list" where
  "computeHydro fp B z accum dx K =
     hydro_loop fp B z accum dx K [1..<length z] (map Num z)"

section \<open>Properties of the array operations\<close>

lemma broadcast_to_length:
  "broadcast_to v n = Inr xs \<Longrightarrow> length xs = nat n"
  by (cases v) (auto split: if_splits)

section \<open>Properties of the geometry process\<close>

lemma linspace_ramp:
  assumes "2 \<le> num"
  shows "\<exists>z. linspace 0 len num = Inr z \<and> length z = nat num \<and>
    (\<forall>i<nat num. z ! i = real i * len / real_of_int (num - 1))"
proof -
  let ?n = "nat num"
  let ?y = "map (\<lambda>i. real i * ((len - 0) / real_of_int (num - 1)) + 0) [0..<?n]"
  have n: "1 < ?n" using assms by simp
  have eq: "linspace 0 len num = Inr (?y[?n - 1 := len])"
    using assms n by (simp add: linspace_def Let_def)
  have last: "real (?n - 1) * len / real_of_int (num - 1) = len"
    using assms by simp
  have "\<forall>i<?n. (?y[?n - 1 := len]) ! i = real i * len / real_of_int (num - 1)"
  proof (intro allI impI)
    fix i assume i: "i < ?n"
    show "(?y[?n - 1 := len]) ! i = real i * len / real_of_int (num - 1)"
    proof (cases "i = ?n - 1")
      case True
      then show ?thesis using i last by simp
    next
      case False
      then show ?thesis using i by simp
    qed
  qed
  then show ?thesis using eq by simp
qed

text \<open>
  C10. The input \<open>slope\<close> is never read: two geometry records that differ only in
  \<open>slope\<close> initialise to the same outcome, which is \<open>np.linspace(0, length, nx)\<close>;
  for \<open>nx \<ge> 2\<close> this is the linear ramp with node \<open>i\<close> at \<open>i * length / (nx - 1)\<close>.
\<close>

theorem Geom_slope_irrelevant:
  "Geom_initialize (g\<lparr>Geom_slope := sa\<rparr>) = Geom_initialize (g\<lparr>Geom_slope := sb\<rparr>)
   \<and> (2 \<le> Geom_nx g \<longrightarrow>
        (\<exists>z. Geom_initialize (g\<lparr>Geom_slope := sa\<rparr>) = Inr (Geom_length g, z)
           \<and> length z = nat (Geom_nx g)
           \<and> (\<forall>i<nat (Geom_nx g). z ! i = real i * Geom_length g / real_of_int (Geom_nx g - 1))))"
proof -
  have same: "Geom_initialize (g\<lparr>Geom_slope := sa\<rparr>) = Geom_initialize (g\<lparr>Geom_slope := sb\<rparr>)"
    by (simp add: Geom_initialize_def split: sum.splits)
  have ramp: "\<exists>z. Geom_initialize (g\<lparr>Geom_slope := sa\<rparr>) = Inr (Geom_length g, z)
           \<and> length z = nat (Geom_nx g)
           \<and> (\<forall>i<nat (Geom_nx g). z ! i = real i * Geom_length g / real_of_int (Geom_nx g - 1))"
    if nx: "2 \<le> Geom_nx g"
  proof -
    obtain z where "linspace 0 (Geom_length g) (Geom_nx g) = Inr z"
      and "length z = nat (Geom_nx g)"
      and "\<forall>i<nat (Geom_nx g). z ! i = real i * Geom_length g / real_of_int (Geom_nx g - 1)"
      using linspace_ramp [OF nx] by blast
    then show ?thesis by (simp add: Geom_initialize_def)
  qed
  from same ramp show ?thesis by blast
qed

theorem Geom_slope_irrelevant_witness:
  "2 \<le> Geom_nx \<lparr>Geom_length = 4, Geom_slope = 0, Geom_nx = 5\<rparr>
   \<and> Geom_initialize (\<lparr>Geom_length = 4, Geom_slope = 0, Geom_nx = 5\<rparr>\<lparr>Geom_slope := 1\<rparr>)
       = Geom_initialize (\<lparr>Geom_length = 4, Geom_slope = 0, Geom_nx = 5\<rparr>\<lparr>Geom_slope := 2\<rparr>)
   \<and> Geom_initialize (\<lparr>Geom_length = 4, Geom_slope = 0, Geom_nx = 5\<rparr>\<lparr>Geom_slope := 1\<rparr>)
       = Inr (4, [0, 1, 2, 3, 4])"
proof -
  let ?g = "\<lparr>Geom_length = 4, Geom_slope = 0, Geom_nx = 5\<rparr>"
  note th = Geom_slope_irrelevant [where g = ?g and sa = 1 and sb = 2]
  have nx: "2 \<le> Geom_nx ?g" by simp
  have same: "Geom_initialize (?g\<lparr>Geom_slope := 1\<rparr>) = Geom_initialize (?g\<lparr>Geom_slope := 2\<rparr>)"
    using th by (rule conjunct1)
  have "\<exists>z. Geom_initialize (?g\<lparr>Geom_slope := 1\<rparr>) = Inr (Geom_length ?g, z)
           \<and> length z = nat (Geom_nx ?g)
           \<and> (\<forall>i<nat (Geom_nx ?g). z ! i = real i * Geom_length ?g / real_of_int (Geom_nx ?g - 1))"
    using th nx by blast
  then obtain z where z: "Geom_initialize (?g\<lparr>Geom_slope := 1\<rparr>) = Inr (4, z)"
    and l: "length z = 5" and r: "\<forall>i<5. z ! i = real i"
    by auto
  have "z = [0, 1, 2, 3, 4]"
  proof (rule nth_equalityI)
    show "length z = length [0, 1, 2, 3, 4::real]" using l by simp
  next
    fix i assume "i < length z"
    then have "i = 0 \<or> i = 1 \<or> i = 2 \<or> i = 3 \<or> i = 4" using l by auto
    then show "z ! i = [0, 1, 2, 3, 4::real] ! i"
      using r by (auto simp: numeral_eq_Suc)
  qed
  with z nx same show ?thesis by blast
qed

section \<open>Properties of the topography process\<close>

lemma vadd_zeros: "vadd xs (replicate (length xs) 0) = xs"
  by (rule nth_equalityI) (simp_all add: vadd_def)

lemma py_sum_from_zeros:
  assumes "\<forall>d\<in>set ds. d = replicate n 0"
  shows "py_sum_from (Array (replicate n 0)) ds = Inr (Array (replicate n 0))"
  using assms
proof (induction ds)
  case Nil
  then show ?case by simp
next
  case (Cons d ds)
  have "vadd (replicate n 0) (replicate n 0) = replicate n (0::real)"
    using vadd_zeros [of "replicate n 0"] by simp
  with Cons show ?case by simp
qed

lemma py_sum_zeros:
  assumes "\<forall>d\<in>set ds. d = replicate n 0"
  shows "py_sum ds = Inr (if ds = [] then Scalar 0 else Array (replicate n 0))"
proof (cases ds)
  case Nil
  then show ?thesis by (simp add: py_sum_def)
next
  case (Cons d ds')
  with assms have d: "d = replicate n 0" and rest: "\<forall>d\<in>set ds'. d = replicate n 0"
    by simp_all
  show ?thesis
    using Cons d py_sum_from_zeros [OF rest] by (simp add: py_sum_def)
qed

text \<open>
  C8. When every increment of the group is an array of zeros of the elevation's length
  (at least 2 nodes), one step of \<open>Topography\<close> leaves every node but the last
  unchanged, and the last node takes the old value of the node before it.
\<close>

theorem Topography_zero_increments:
  assumes "2 \<le> length elevation"
    and "\<forall>d\<in>set dtopo. d = replicate (length elevation) 0"
  shows "\<exists>elevation'. Topography_run_step elevation dtopo = Inr elevation'
     \<and> length elevation' = length elevation
     \<and> (\<forall>i<length elevation - 1. elevation' ! i = elevation ! i)
     \<and> elevation' ! (length elevation - 1) = elevation ! (length elevation - 2)"
proof -
  let ?n = "length elevation"
  have sum: "py_sum dtopo = Inr (if dtopo = [] then Scalar 0 else Array (replicate ?n 0))"
    using py_sum_zeros [OF assms(2)] .
  have add: "np_add (Array elevation) (if dtopo = [] then Scalar 0 else Array (replicate ?n 0))
      = Inr (Array elevation)"
    by (simp add: vadd_zeros)
  have run: "Topography_run_step elevation dtopo = Inr (elevation[?n - 1 := elevation ! (?n - 2)])"
    using assms(1) by (simp add: Topography_run_step_def sum add copy_last_def)
  show ?thesis using assms(1) by (simp add: run)
qed

theorem Topography_zero_increments_witness:
  "Topography_run_step [1, 2, 3, 5] [[0, 0, 0, 0], [0, 0, 0, 0]] = Inr [1, 2, 3, 3]"
proof -
  have len: "2 \<le> length [1, 2, 3, 5::real]" by simp
  have zero: "\<forall>d\<in>set [[0, 0, 0, 0], [0, 0, 0, 0::real]]. d = replicate (length [1, 2, 3, 5::real]) 0"
    by (simp add: numeral_eq_Suc)
  obtain e where e: "Topography_run_step [1, 2, 3, 5] [[0, 0, 0, 0], [0, 0, 0, 0]] = Inr e"
    and l: "length e = length [1, 2, 3, 5::real]"
    and keep: "\<forall>i<length [1, 2, 3, 5::real] - 1. e ! i = [1, 2, 3, 5::real] ! i"
    and last: "e ! (length [1, 2, 3, 5::real] - 1) = [1, 2, 3, 5::real] ! (length [1, 2, 3, 5::real] - 2)"
    using Topography_zero_increments [OF len zero] by blast
  have "e = [1, 2, 3, 3]"
  proof (rule nth_equalityI)
    show "length e = length [1, 2, 3, 3::real]" using l by simp
  next
    fix i assume "i < length e"
    then have "i = 0 \<or> i = 1 \<or> i = 2 \<or> i = 3" using l by auto
    then show "e ! i = [1, 2, 3, 3::real] ! i"
      using keep last by (auto simp: numeral_eq_Suc)
  qed
  with e show ?thesis by simp
qed

section \<open>Properties of the uplift process\<close>

text \<open>
  C9. When \<open>rate\<close> broadcasts to \<open>nx \<ge> 1\<close> nodes as \<open>u\<close>, the uplift step returns
  \<open>dtopo\<close> with \<open>dtopo[0] = 0\<close> and \<open>dtopo[i] = u[i] * dt\<close> at every node \<open>i > 0\<close>.
\<close>

theorem Uplift_increment:
  assumes "broadcast_to rate nx = Inr u" and "0 < nx"
  shows "\<exists>dtopo. Uplift_run_step dt rate nx = Inr dtopo
     \<and> length dtopo = nat nx
     \<and> dtopo ! 0 = 0
     \<and> (\<forall>i. 0 < i \<and> i < nat nx \<longrightarrow> dtopo ! i = u ! i * dt)"
proof -
  have len: "length u = nat nx" using assms(1) by (rule broadcast_to_length)
  then have ne: "smul dt u \<noteq> []" using assms(2) by (auto simp: smul_def)
  have run: "Uplift_run_step dt rate nx = Inr ((smul dt u)[0 := 0])"
    using ne by (simp add: Uplift_run_step_def assms(1) set_first_def)
  have "\<forall>i. 0 < i \<and> i < nat nx \<longrightarrow> (smul dt u)[0 := 0] ! i = u ! i * dt"
    using len by (simp add: smul_def)
  moreover have "(smul dt u)[0 := 0] ! 0 = 0"
    using len assms(2) by (simp add: smul_def)
  ultimately show ?thesis using len by (simp add: run smul_def)
qed

theorem Uplift_increment_witness:
  "Uplift_run_step 2 (Scalar 3) 4 = Inr [0, 6, 6, 6]"
proof -
  have b: "broadcast_to (Scalar 3) 4 = Inr [3, 3, 3, 3]" by (simp add: numeral_eq_Suc)
  have p: "(0::int) < 4" by simp
  obtain d where d: "Uplift_run_step 2 (Scalar 3) 4 = Inr d"
    and l: "length d = nat 4" and z: "d ! 0 = 0"
    and r: "\<forall>i. 0 < i \<and> i < nat 4 \<longrightarrow> d ! i = [3, 3, 3, 3::real] ! i * 2"
    using Uplift_increment [OF b p, of 2] by blast
  have "d = [0, 6, 6, 6]"
  proof (rule nth_equalityI)
    show "length d = length [0, 6, 6, 6::real]" using l by simp
  next
    fix i assume "i < length d"
    then have "i = 0 \<or> i = 1 \<or> i = 2 \<or> i = 3" using l by auto
    then show "d ! i = [0, 6, 6, 6::real] ! i"
      using z r by (auto simp: numeral_eq_Suc)
  qed
  with d show ?thesis by simp
qed

section \<open>Properties of the precipitation process\<close>

lemma integrate_loop_length [simp]: "length (integrate_loop ks a) = length a"
  by (induction ks arbitrary: a) simp_all

lemma integrate_loop_down:
  assumes "k < length a" and "j < length a"
  shows "integrate_loop (rev [1..<Suc k]) a ! j
           = (if j \<le> k then (\<Sum>l = j..k. a ! l) else a ! j)"
  using assms
proof (induction k arbitrary: a)
  case 0
  then show ?case by simp
next
  case (Suc k)
  let ?a = "a[k := a ! k + a ! Suc k]"
  have step: "integrate_loop (rev [1..<Suc (Suc k)]) a = integrate_loop (rev [1..<Suc k]) ?a"
    by simp
  have k: "k < length ?a" and j: "j < length ?a" using Suc.prems by simp_all
  note IH = Suc.IH [OF k j]
  show ?case
  proof (cases "j \<le> k")
    case True
    have split: "(\<Sum>l = j..k. ?a ! l) = (\<Sum>l = j..<k. ?a ! l) + ?a ! k"
      using True by (simp add: sum.last_plus atLeastLessThanSuc_atLeastAtMost [symmetric] add.commute)
    have same: "(\<Sum>l = j..<k. ?a ! l) = (\<Sum>l = j..<k. a ! l)"
      by (rule sum.cong) simp_all
    have ak: "?a ! k = a ! k + a ! Suc k" using Suc.prems by simp
    have "(\<Sum>l = j..Suc k. a ! l) = (\<Sum>l = j..<k. a ! l) + a ! k + a ! Suc k"
      using True by (simp add: atLeastLessThanSuc_atLeastAtMost [symmetric])
    then show ?thesis using True IH split same ak step by simp
  next
    case False
    then have ajk: "?a ! j = a ! j" by simp
    have res: "integrate_loop (rev [1..<Suc (Suc k)]) a ! j = a ! j"
      using False IH ajk by (simp only: step if_False)
    show ?thesis
    proof (cases "j = Suc k")
      case True
      then show ?thesis using res by simp
    next
      case neq: False
      with False have "\<not> j \<le> Suc k" by simp
      then show ?thesis using res by simp
    qed
  qed
qed

lemma integrate_nth:
  assumes "i < length x"
  shows "integrate x ! i = (\<Sum>j = i..<length x. x ! j)"
proof -
  obtain k where k: "length x = Suc k" using assms by (cases "length x") simp_all
  have "integrate x ! i = (\<Sum>l = i..k. x ! l)"
    using integrate_loop_down [of k x i] assms k by (simp add: integrate_def)
  then show ?thesis using k by (simp add: atLeastLessThanSuc_atLeastAtMost)
qed

lemma integrate_length [simp]: "length (integrate x) = length x"
  by (simp add: integrate_def)

text \<open>
  C5. When \<open>rate\<close> broadcasts to \<open>nx\<close> nodes as \<open>r\<close>, the precipitation step returns
  \<open>integrated\<close> with \<open>integrated[i]\<close> the sum of \<open>r[j] * dx\<close> over all \<open>j \<ge> i\<close>.
  For the rate \<open>[1, 1, 1, 1]\<close> and \<open>dx = 1\<close> the result is \<open>[4, 3, 2, 1]\<close>.
\<close>

theorem Precipitation_integrated:
  "(broadcast_to rate nx = Inr r \<longrightarrow>
      (\<exists>integrated. Precipitation_run_step rate dx nx = Inr integrated
         \<and> length integrated = nat nx
         \<and> (\<forall>i<nat nx. integrated ! i = (\<Sum>j = i..<nat nx. r ! j * dx))))
   \<and> integrate [1, 1, 1, 1] = [4, 3, 2, 1]
   \<and> Precipitation_run_step (Array [1, 1, 1, 1]) 1 4 = Inr [4, 3, 2, 1]"
proof -
  have general: "\<exists>integrated. Precipitation_run_step rate dx nx = Inr integrated
         \<and> length integrated = nat nx
         \<and> (\<forall>i<nat nx. integrated ! i = (\<Sum>j = i..<nat nx. r ! j * dx))"
    if b: "broadcast_to rate nx = Inr r"
  proof -
    have len: "length r = nat nx" using b by (rule broadcast_to_length)
    have run: "Precipitation_run_step rate dx nx = Inr (integrate (map (\<lambda>x. x * dx) r))"
      by (simp add: Precipitation_run_step_def b)
    have "integrate (map (\<lambda>x. x * dx) r) ! i = (\<Sum>j = i..<nat nx. r ! j * dx)"
      if i: "i < nat nx" for i
    proof -
      have "integrate (map (\<lambda>x. x * dx) r) ! i
              = (\<Sum>j = i..<nat nx. map (\<lambda>x. x * dx) r ! j)"
        using integrate_nth [of i "map (\<lambda>x. x * dx) r"] i len by simp
      also have "\<dots> = (\<Sum>j = i..<nat nx. r ! j * dx)"
        by (rule sum.cong) (simp_all add: len)
      finally show ?thesis .
    qed
    then show ?thesis using len by (simp add: run)
  qed
  have ex1: "integrate [1, 1, 1, 1] = [4, 3, 2, 1]"
    by (simp add: integrate_def upt_rec)
  have ex2: "Precipitation_run_step (Array [1, 1, 1, 1]) 1 4 = Inr [4, 3, 2, 1]"
    by (simp add: Precipitation_run_step_def integrate_def upt_rec)
  from general ex1 ex2 show ?thesis by blast
qed

theorem Precipitation_integrated_witness:
  "broadcast_to (Scalar 2) 3 = Inr [2, 2, 2]
   \<and> Precipitation_run_step (Scalar 2) (1 / 2) 3 = Inr [3, 2, 1]"
proof -
  have b: "broadcast_to (Scalar 2) 3 = Inr [2, 2, 2]" by (simp add: numeral_eq_Suc)
  obtain g where g: "Precipitation_run_step (Scalar 2) (1 / 2) 3 = Inr g"
    and l: "length g = nat 3"
    and r: "\<forall>i<nat 3. g ! i = (\<Sum>j = i..<nat 3. [2, 2, 2::real] ! j * (1 / 2))"
    using Precipitation_integrated [of "Scalar 2" 3 "[2, 2, 2]" "1 / 2"] b by blast
  have "g = [3, 2, 1]"
  proof (rule nth_equalityI)
    show "length g = length [3, 2, 1::real]" using l by simp
  next
    fix i assume "i < length g"
    then have "i = 0 \<or> i = 1 \<or> i = 2" using l by auto
    then show "g ! i = [3, 2, 1::real] ! i"
      using r by (auto simp: numeral_eq_Suc sum.atLeast_Suc_lessThan)
  qed
  with g b show ?thesis by simp
qed

section \<open>Properties of the erosion process\<close>

lemma slice_lengths [simp]:
  "length (slice_to_m2 a) = length a - 2"
  "length (slice_1_m1 a) = length a - 2"
  "length (slice_from_2 a) = length a - 2"
  by (simp_all add: slice_to_m2_def slice_1_m1_def slice_from_2_def)

lemma slice_nth:
  assumes "j < length a - 2"
  shows "slice_to_m2 a ! j = a ! j"
    and "slice_1_m1 a ! j = a ! Suc j"
    and "slice_from_2 a ! j = a ! Suc (Suc j)"
  using assms by (simp_all add: slice_to_m2_def slice_1_m1_def slice_from_2_def)

lemma interior_nth:
  assumes "length s = n" and "length k = n" and "j < n - 2"
  shows "smul f (vsub (vmul (vsub (slice_to_m2 s) (slice_1_m1 s))
                           (vadd (slice_to_m2 k) (slice_1_m1 k)))
                     (vmul (vsub (slice_1_m1 s) (slice_from_2 s))
                           (vadd (slice_1_m1 k) (slice_from_2 k)))) ! j
         = f * ((s ! j - s ! Suc j) * (k ! j + k ! Suc j)
                - (s ! Suc j - s ! Suc (Suc j)) * (k ! Suc j + k ! Suc (Suc j)))"
  using assms by (simp add: smul_def vsub_def vmul_def vadd_def slice_nth)

lemma interior_length:
  assumes "length s = n" and "length k = n"
  shows "length (smul f (vsub (vmul (vsub (slice_to_m2 s) (slice_1_m1 s))
                           (vadd (slice_to_m2 k) (slice_1_m1 k)))
                     (vmul (vsub (slice_1_m1 s) (slice_from_2 s))
                           (vadd (slice_1_m1 k) (slice_from_2 k))))) = n - 2"
  using assms by (simp add: smul_def vsub_def vmul_def vadd_def)

lemma boundary_writes:
  assumes "3 \<le> length d" and "length v = length d - 2"
  shows "\<exists>d3. (case set_slice_1_m1 d v of
                 Inl err \<Rightarrow> Inl err
               | Inr d1 \<Rightarrow>
                  (case set_first d1 0 of
                     Inl err \<Rightarrow> Inl err
                   | Inr d2 \<Rightarrow>
                       (case copy_last d2 of
                          Inl err \<Rightarrow> Inl err
                        | Inr d3 \<Rightarrow> Inr (upd d3)))) = Inr (upd d3)
          \<and> length d3 = length d \<and> d3 ! 0 = 0
          \<and> d3 ! (length d - 1) = d3 ! (length d - 2)
          \<and> (\<forall>i. 1 \<le> i \<and> i \<le> length d - 2 \<longrightarrow> d3 ! i = v ! (i - 1))"
proof -
  let ?n = "length d"
  define d1 where "d1 = take 1 d @ v @ drop (1 + (?n - 2)) d"
  have s1: "set_slice_1_m1 d v = Inr d1"
    using assms by (simp add: set_slice_1_m1_def d1_def)
  have l1: "length d1 = ?n" using assms by (simp add: d1_def)
  have n1: "d1 ! i = v ! (i - 1)" if "1 \<le> i" "i \<le> ?n - 2" for i
  proof -
    have t1: "length (take 1 d) = 1" using assms by simp
    have iv: "i - 1 < length v" using that assms by arith
    have "d1 ! i = (v @ drop (1 + (?n - 2)) d) ! (i - 1)"
      using that t1 by (simp add: nth_append d1_def)
    also have "\<dots> = v ! (i - 1)" using iv by (simp add: nth_append)
    finally show ?thesis .
  qed
  define d2 where "d2 = d1[0 := 0]"
  have ne: "d1 \<noteq> []" using assms l1 by auto
  have s2: "set_first d1 0 = Inr d2"
    using ne by (simp add: set_first_def d2_def)
  have l2: "length d2 = ?n" using l1 by (simp add: d2_def)
  have p1: "0 < length d1" using assms l1 by arith
  have z2: "d2 ! 0 = 0" using p1 by (simp add: d2_def)
  have n2: "d2 ! i = v ! (i - 1)" if "1 \<le> i" "i \<le> ?n - 2" for i
    using that n1 [OF that] by (simp add: d2_def)
  define d3 where "d3 = d2[?n - 1 := d2 ! (?n - 2)]"
  have s3: "copy_last d2 = Inr d3"
    using assms l2 by (simp add: copy_last_def d3_def)
  have l3: "length d3 = ?n" using l2 by (simp add: d3_def)
  have "0 \<noteq> ?n - 1" using assms by arith
  then have z3: "d3 ! 0 = 0" using z2 by (simp add: d3_def)
  have n3: "d3 ! i = v ! (i - 1)" if "1 \<le> i" "i \<le> ?n - 2" for i
  proof -
    have "i \<noteq> ?n - 1" using that assms by arith
    then show ?thesis using n2 [OF that] by (simp add: d3_def)
  qed
  have last: "d3 ! (?n - 1) = d3 ! (?n - 2)"
  proof -
    have "?n - 1 < length d2" using assms l2 by arith
    then have a: "d3 ! (?n - 1) = d2 ! (?n - 2)" by (simp add: d3_def)
    have "?n - 2 \<noteq> ?n - 1" using assms by arith
    then have b: "d3 ! (?n - 2) = d2 ! (?n - 2)" by (simp add: d3_def)
    from a b show ?thesis by simp
  qed
  have run: "(case set_slice_1_m1 d v of
                 Inl err \<Rightarrow> Inl err
               | Inr d1 \<Rightarrow>
                  (case set_first d1 0 of
                     Inl err \<Rightarrow> Inl err
                   | Inr d2 \<Rightarrow>
                       (case copy_last d2 of
                          Inl err \<Rightarrow> Inl err
                        | Inr d3 \<Rightarrow> Inr (upd d3)))) = Inr (upd d3)"
    by (simp only: s1 s2 s3 sum.case)
  from run l3 z3 last n3 show ?thesis by blast
qed

lemma Erosion_run_step_nodes:
  assumes n: "3 \<le> length (Erosion_surface e)"
    and d: "length (Erosion_dtopo e) = length (Erosion_surface e)"
    and b: "broadcast_to (Erosion_kd e) (int (length (Erosion_surface e))) = Inr kd"
  shows "\<exists>dtopo. Erosion_run_step dt e = Inr (e\<lparr>Erosion_dtopo := dtopo\<rparr>)
     \<and> length dtopo = length (Erosion_surface e)
     \<and> dtopo ! 0 = 0
     \<and> dtopo ! (length (Erosion_surface e) - 1) = dtopo ! (length (Erosion_surface e) - 2)
     \<and> (\<forall>i. 1 \<le> i \<and> i \<le> length (Erosion_surface e) - 2 \<longrightarrow>
           dtopo ! i = dt / (Erosion_dx e)\<^sup>2 / 2
             * ((Erosion_surface e ! (i - 1) - Erosion_surface e ! i) * (kd ! (i - 1) + kd ! i)
                - (Erosion_surface e ! i - Erosion_surface e ! (i + 1)) * (kd ! i + kd ! (i + 1))))"
proof -
  let ?s = "Erosion_surface e"
  let ?n = "length ?s"
  let ?v = "smul (dt / (Erosion_dx e)\<^sup>2 / 2)
              (vsub (vmul (vsub (slice_to_m2 ?s) (slice_1_m1 ?s))
                          (vadd (slice_to_m2 kd) (slice_1_m1 kd)))
                    (vmul (vsub (slice_1_m1 ?s) (slice_from_2 ?s))
                          (vadd (slice_1_m1 kd) (slice_from_2 kd))))"
  have lk: "length kd = ?n" using broadcast_to_length [OF b] by simp
  have lv: "length ?v = length (Erosion_dtopo e) - 2"
    using interior_length [OF refl lk] d by simp
  have n': "3 \<le> length (Erosion_dtopo e)" using n d by simp
  obtain d3 where run: "(case set_slice_1_m1 (Erosion_dtopo e) ?v of
                 Inl err \<Rightarrow> Inl err
               | Inr d1 \<Rightarrow>
                  (case set_first d1 0 of
                     Inl err \<Rightarrow> Inl err
                   | Inr d2 \<Rightarrow>
                       (case copy_last d2 of
                          Inl err \<Rightarrow> Inl err
                        | Inr d3 \<Rightarrow> Inr (e\<lparr>Erosion_dtopo := d3\<rparr>)))) = Inr (e\<lparr>Erosion_dtopo := d3\<rparr>)"
    and l3: "length d3 = length (Erosion_dtopo e)" and z: "d3 ! 0 = 0"
    and last: "d3 ! (length (Erosion_dtopo e) - 1) = d3 ! (length (Erosion_dtopo e) - 2)"
    and mid: "\<forall>i. 1 \<le> i \<and> i \<le> length (Erosion_dtopo e) - 2 \<longrightarrow> d3 ! i = ?v ! (i - 1)"
    using boundary_writes [OF n' lv, of "\<lambda>x. e\<lparr>Erosion_dtopo := x\<rparr>"] by blast
  have step: "Erosion_run_step dt e = Inr (e\<lparr>Erosion_dtopo := d3\<rparr>)"
    unfolding Erosion_run_step_def Let_def b sum.case using run .
  have "d3 ! i = dt / (Erosion_dx e)\<^sup>2 / 2
             * ((?s ! (i - 1) - ?s ! i) * (kd ! (i - 1) + kd ! i)
                - (?s ! i - ?s ! (i + 1)) * (kd ! i + kd ! (i + 1)))"
    if i: "1 \<le> i" "i \<le> ?n - 2" for i
  proof -
    obtain j where j: "i = Suc j" using i by (cases i) simp_all
    have jn: "j < ?n - 2" using i j by simp
    have "d3 ! i = ?v ! j" using mid i d j by simp
    also have "\<dots> = dt / (Erosion_dx e)\<^sup>2 / 2
             * ((?s ! (i - 1) - ?s ! i) * (kd ! (i - 1) + kd ! i)
                - (?s ! i - ?s ! (i + 1)) * (kd ! i + kd ! (i + 1)))"
      using interior_nth [OF refl lk jn] by (simp add: j)
    finally show ?thesis .
  qed
  then show ?thesis using step l3 z last d by auto
qed

text \<open>
  C3. For a surface of \<open>N \<ge> 3\<close> nodes, a diffusivity that broadcasts to \<open>N\<close> nodes as
  \<open>kd\<close>, the increment array allocated by \<open>initialize\<close> (of length \<open>N\<close>) and a spacing
  \<open>dx \<noteq> 0\<close>, \<open>run_step\<close> returns \<open>dtopo\<close> with the flux-form value
  \<open>dt / (2 dx\<^sup>2) * ((z[i-1] - z[i]) (kd[i-1] + kd[i]) - (z[i] - z[i+1]) (kd[i] + kd[i+1]))\<close>
  at every interior node \<open>i = 1, ..., N - 2\<close>, \<open>dtopo[0] = 0\<close> and
  \<open>dtopo[N-1] = dtopo[N-2]\<close>.
\<close>

theorem Erosion_run_step_flux_form:
  assumes "3 \<le> length (Erosion_surface e)"
    and "length (Erosion_dtopo e) = length (Erosion_surface e)"
    and "broadcast_to (Erosion_kd e) (int (length (Erosion_surface e))) = Inr kd"
    and "Erosion_dx e \<noteq> 0"
  shows "\<exists>dtopo. Erosion_run_step dt e = Inr (e\<lparr>Erosion_dtopo := dtopo\<rparr>)
     \<and> length dtopo = length (Erosion_surface e)
     \<and> (\<forall>i. 1 \<le> i \<and> i \<le> length (Erosion_surface e) - 2 \<longrightarrow>
           dtopo ! i = dt / (2 * (Erosion_dx e)\<^sup>2)
             * ((Erosion_surface e ! (i - 1) - Erosion_surface e ! i) * (kd ! (i - 1) + kd ! i)
                - (Erosion_surface e ! i - Erosion_surface e ! (i + 1)) * (kd ! i + kd ! (i + 1))))
     \<and> dtopo ! 0 = 0
     \<and> dtopo ! (length (Erosion_surface e) - 1) = dtopo ! (length (Erosion_surface e) - 2)"
proof -
  have f: "dt / (Erosion_dx e)\<^sup>2 / 2 = dt / (2 * (Erosion_dx e)\<^sup>2)"
    by (simp add: field_simps)
  show ?thesis
    using Erosion_run_step_nodes [OF assms(1) assms(2) assms(3), of dt]
    unfolding f by blast
qed

theorem Erosion_run_step_flux_form_witness:
  "Erosion_run_step (1 / 2)
     \<lparr>Erosion_kd = Scalar 1, Erosion_surface = [0, 1, 4, 3, 4], Erosion_L = 4,
      Erosion_dx = 1, Erosion_dtopo = [0, 0, 0, 0, 0]\<rparr>
   = Inr \<lparr>Erosion_kd = Scalar 1, Erosion_surface = [0, 1, 4, 3, 4], Erosion_L = 4,
          Erosion_dx = 1, Erosion_dtopo = [0, 1, - 2, 1, 1]\<rparr>"
proof -
  let ?e = "\<lparr>Erosion_kd = Scalar 1, Erosion_surface = [0, 1, 4, 3, 4], Erosion_L = 4,
      Erosion_dx = 1, Erosion_dtopo = [0, 0, 0, 0, 0]\<rparr>"
  have h1: "3 \<le> length (Erosion_surface ?e)" by simp
  have h2: "length (Erosion_dtopo ?e) = length (Erosion_surface ?e)" by simp
  have h3: "broadcast_to (Erosion_kd ?e) (int (length (Erosion_surface ?e))) = Inr [1, 1, 1, 1, 1]"
    by (simp add: numeral_eq_Suc)
  have h4: "Erosion_dx ?e \<noteq> 0" by simp
  let ?s = "Erosion_surface ?e"
  let ?k = "[1, 1, 1, 1, 1::real]"
  obtain d where run: "Erosion_run_step (1 / 2) ?e = Inr (?e\<lparr>Erosion_dtopo := d\<rparr>)"
    and l: "length d = length ?s"
    and mid: "\<forall>i. 1 \<le> i \<and> i \<le> length ?s - 2 \<longrightarrow>
           d ! i = 1 / 2 / (2 * (Erosion_dx ?e)\<^sup>2)
             * ((?s ! (i - 1) - ?s ! i) * (?k ! (i - 1) + ?k ! i)
                - (?s ! i - ?s ! (i + 1)) * (?k ! i + ?k ! (i + 1)))"
    and z: "d ! 0 = 0" and last: "d ! (length ?s - 1) = d ! (length ?s - 2)"
    using Erosion_run_step_flux_form [OF h1 h2 h3 h4, of "1 / 2"] by blast
  have d1: "d ! 1 = 1" using mid [rule_format, of 1] by simp
  have d2: "d ! 2 = - 2" using mid [rule_format, of 2] by (simp add: numeral_eq_Suc)
  have d3: "d ! 3 = 1" using mid [rule_format, of 3] by (simp add: numeral_eq_Suc)
  have d4: "d ! 4 = d ! 3" using last by (simp add: numeral_eq_Suc)
  have "d = [0, 1, - 2, 1, 1]"
  proof (rule nth_equalityI)
    show "length d = length [0, 1, - 2, 1, 1::real]" using l by simp
  next
    fix i assume "i < length d"
    then have "i = 0 \<or> i = 1 \<or> i = 2 \<or> i = 3 \<or> i = 4" using l by auto
    then show "d ! i = [0, 1, - 2, 1, 1::real] ! i"
      using z d1 d2 d3 d4 by (auto simp: numeral_eq_Suc)
  qed
  with run show ?thesis by simp
qed

text \<open>
  C7. For a surface whose consecutive nodes all differ by the same gradient step \<open>g\<close> and
  a diffusivity that broadcasts to the constant \<open>k\<close>, the increment of \<open>run_step\<close> is
  exactly 0 at every interior node.
\<close>

theorem Erosion_linear_steady:
  assumes "3 \<le> length (Erosion_surface e)"
    and "length (Erosion_dtopo e) = length (Erosion_surface e)"
    and "broadcast_to (Erosion_kd e) (int (length (Erosion_surface e)))
           = Inr (replicate (length (Erosion_surface e)) k)"
    and "\<forall>i. i + 1 < length (Erosion_surface e) \<longrightarrow>
           Erosion_surface e ! (i + 1) - Erosion_surface e ! i = g"
    and "Erosion_dx e \<noteq> 0"
  shows "\<exists>dtopo. Erosion_run_step dt e = Inr (e\<lparr>Erosion_dtopo := dtopo\<rparr>)
     \<and> length dtopo = length (Erosion_surface e)
     \<and> (\<forall>i. 1 \<le> i \<and> i \<le> length (Erosion_surface e) - 2 \<longrightarrow> dtopo ! i = 0)"
proof -
  let ?s = "Erosion_surface e"
  let ?n = "length ?s"
  let ?kd = "replicate ?n k"
  obtain d where run: "Erosion_run_step dt e = Inr (e\<lparr>Erosion_dtopo := d\<rparr>)"
    and l: "length d = ?n"
    and mid: "\<forall>i. 1 \<le> i \<and> i \<le> ?n - 2 \<longrightarrow>
           d ! i = dt / (Erosion_dx e)\<^sup>2 / 2
             * ((?s ! (i - 1) - ?s ! i) * (?kd ! (i - 1) + ?kd ! i)
                - (?s ! i - ?s ! (i + 1)) * (?kd ! i + ?kd ! (i + 1)))"
    using Erosion_run_step_nodes [OF assms(1) assms(2) assms(3), of dt] by blast
  have "d ! i = 0" if i: "1 \<le> i" "i \<le> ?n - 2" for i
  proof -
    obtain j where j: "i = Suc j" using i by (cases i) simp_all
    have in1: "i + 1 < ?n" and jn: "j + 1 < ?n" and lt: "i < ?n" "j < ?n"
      using i j assms(1) by arith+
    have g1: "?s ! (j + 1) - ?s ! j = g" using assms(4) jn by blast
    have g2: "?s ! (i + 1) - ?s ! i = g" using assms(4) in1 by blast
    have a: "?s ! (i - 1) - ?s ! i = - g" using g1 j by simp
    have b: "?s ! i - ?s ! (i + 1) = - g" using g2 by simp
    have kds: "?kd ! (i - 1) = k" "?kd ! i = k" "?kd ! (i + 1) = k"
      using in1 lt j by simp_all
    have "d ! i = dt / (Erosion_dx e)\<^sup>2 / 2
             * ((?s ! (i - 1) - ?s ! i) * (?kd ! (i - 1) + ?kd ! i)
                - (?s ! i - ?s ! (i + 1)) * (?kd ! i + ?kd ! (i + 1)))"
      using mid i by blast
    also have "\<dots> = 0" unfolding a b kds by simp
    finally show ?thesis .
  qed
  then show ?thesis using run l by blast
qed

theorem Erosion_linear_steady_witness:
  "\<exists>dtopo. Erosion_run_step (1 / 2)
     \<lparr>Erosion_kd = Scalar 1, Erosion_surface = [0, 1, 2, 3, 4], Erosion_L = 4,
      Erosion_dx = 1, Erosion_dtopo = [0, 0, 0, 0, 0]\<rparr>
   = Inr \<lparr>Erosion_kd = Scalar 1, Erosion_surface = [0, 1, 2, 3, 4], Erosion_L = 4,
          Erosion_dx = 1, Erosion_dtopo = dtopo\<rparr>
   \<and> length dtopo = 5 \<and> dtopo ! 1 = 0 \<and> dtopo ! 2 = 0 \<and> dtopo ! 3 = 0"
proof -
  let ?e = "\<lparr>Erosion_kd = Scalar 1, Erosion_surface = [0, 1, 2, 3, 4], Erosion_L = 4,
      Erosion_dx = 1, Erosion_dtopo = [0, 0, 0, 0, 0]\<rparr>"
  let ?s = "Erosion_surface ?e"
  have h1: "3 \<le> length ?s" by simp
  have h2: "length (Erosion_dtopo ?e) = length ?s" by simp
  have h3: "broadcast_to (Erosion_kd ?e) (int (length ?s)) = Inr (replicate (length ?s) 1)"
    by (simp add: numeral_eq_Suc)
  have h4: "\<forall>i. i + 1 < length ?s \<longrightarrow> ?s ! (i + 1) - ?s ! i = 1"
  proof (intro allI impI)
    fix i assume "i + 1 < length ?s"
    then have "i = 0 \<or> i = 1 \<or> i = 2 \<or> i = 3" by auto
    then show "?s ! (i + 1) - ?s ! i = 1"
      by (auto simp: numeral_eq_Suc)
  qed
  have h5: "Erosion_dx ?e \<noteq> 0" by simp
  obtain d where run: "Erosion_run_step (1 / 2) ?e = Inr (?e\<lparr>Erosion_dtopo := d\<rparr>)"
    and l: "length d = length ?s"
    and mid: "\<forall>i. 1 \<le> i \<and> i \<le> length ?s - 2 \<longrightarrow> d ! i = 0"
    using Erosion_linear_steady [OF h1 h2 h3 h4 h5, of "1 / 2"] by blast
  have "d ! 1 = 0" "d ! 2 = 0" "d ! 3 = 0"
    using mid [rule_format, of 1] mid [rule_format, of 2] mid [rule_format, of 3] by simp_all
  then show ?thesis using run l by simp
qed

section \<open>Properties of the water table\<close>

text \<open>
  The loop is a recurrence, whatever the arithmetic: node 0 keeps the surface elevation
  and every later node is \<open>hydro_node\<close> of its left neighbour in the returned array.
\<close>

lemma hydro_loop_upt:
  assumes "length H = n" and "n \<le> length B" and "n \<le> length accum" and "1 \<le> a"
  shows "\<exists>H'. hydro_loop fp B z accum dx K [a..<n] H = Inr H' \<and> length H' = n
           \<and> (\<forall>j<a. H' ! j = H ! j)
           \<and> (\<forall>j. a \<le> j \<and> j < n \<longrightarrow>
                 H' ! j = hydro_node fp B z accum dx K j (H' ! (j - 1)))"
  using assms
proof (induction "n - a" arbitrary: a H)
  case 0
  then have na: "n \<le> a" by simp
  then have "hydro_loop fp B z accum dx K [a..<n] H = Inr H" by simp
  then show ?case using "0.prems" na by auto
next
  case (Suc m)
  then have an: "a < n" by simp
  let ?H1 = "H[a := hydro_node fp B z accum dx K a (H ! (a - 1))]"
  have upt: "[a..<n] = a # [Suc a..<n]" using an by (simp add: upt_rec)
  have step: "hydro_loop fp B z accum dx K [a..<n] H
                = hydro_loop fp B z accum dx K [Suc a..<n] ?H1"
    using an Suc.prems by (simp add: upt)
  have m: "m = n - Suc a" using Suc.hyps by simp
  have l1: "length ?H1 = n" using Suc.prems by simp
  have sa: "1 \<le> Suc a" by simp
  obtain H' where run: "hydro_loop fp B z accum dx K [Suc a..<n] ?H1 = Inr H'"
    and len: "length H' = n"
    and keep: "\<forall>j<Suc a. H' ! j = ?H1 ! j"
    and rec: "\<forall>j. Suc a \<le> j \<and> j < n \<longrightarrow>
                H' ! j = hydro_node fp B z accum dx K j (H' ! (j - 1))"
    using Suc.hyps(1) [OF m l1 Suc.prems(2) Suc.prems(3) sa] by blast
  have before: "\<forall>j<a. H' ! j = H ! j" using keep by simp
  have aprev: "H' ! (a - 1) = H ! (a - 1)" using before Suc.prems(4) by simp
  have "H' ! a = ?H1 ! a" using keep by simp
  also have "\<dots> = hydro_node fp B z accum dx K a (H ! (a - 1))"
    using an Suc.prems(1) by simp
  finally have at: "H' ! a = hydro_node fp B z accum dx K a (H' ! (a - 1))"
    using aprev by simp
  have "H' ! j = hydro_node fp B z accum dx K j (H' ! (j - 1))" if "a \<le> j" "j < n" for j
  proof (cases "j = a")
    case True
    then show ?thesis using at by simp
  next
    case False
    then have "Suc a \<le> j" using that by simp
    then show ?thesis using rec that by blast
  qed
  then show ?case using step run len before by auto
qed

lemma computeHydro_rec:
  assumes "length z \<le> length B" and "length z \<le> length accum"
  shows "\<exists>H. computeHydro fp B z accum dx K = Inr H \<and> length H = length z
           \<and> (0 < length z \<longrightarrow> H ! 0 = Num (z ! 0))
           \<and> (\<forall>i. 1 \<le> i \<and> i < length z \<longrightarrow>
                 H ! i = hydro_node fp B z accum dx K i (H ! (i - 1)))"
proof -
  have l: "length (map Num z) = length z" by simp
  obtain H where run: "hydro_loop fp B z accum dx K [1..<length z] (map Num z) = Inr H"
    and len: "length H = length z"
    and keep: "\<forall>j<1. H ! j = map Num z ! j"
    and rec: "\<forall>j. 1 \<le> j \<and> j < length z \<longrightarrow>
                H ! j = hydro_node fp B z accum dx K j (H ! (j - 1))"
    using hydro_loop_upt [OF l assms(1) assms(2) order_refl] by blast
  have "H ! 0 = Num (z ! 0)" if "0 < length z" using keep that by simp
  then show ?thesis using run len rec by (auto simp: computeHydro_def)
qed

lemma hydro_node_NaN [simp]: "hydro_node fp B z accum dx K i NaN = NaN"
  by (simp add: hydro_node_def hydro_disc_def hydro_c_def Let_def)

lemma hydro_node_negative_disc:
  assumes "hydro_disc fp B z accum dx K i hp = Num d" and "d < 0"
  shows "hydro_node fp B z accum dx K i hp = NaN"
  using assms by (simp add: hydro_node_def Let_def)

text \<open>
  What the two clamps give in every arithmetic: a node is \<open>nan\<close>, or it lies between
  \<open>z[i] - B[i]\<close> as the machine computes it and \<open>z[i]\<close>.
\<close>

lemma hydro_node_clamped:
  assumes "fp_sub fp (z ! i) (B ! i) \<le> z ! i"
  shows "hydro_node fp B z accum dx K i hp = NaN
     \<or> (\<exists>r. hydro_node fp B z accum dx K i hp = Num r
            \<and> fp_sub fp (z ! i) (B ! i) \<le> r \<and> r \<le> z ! i)"
proof (cases "fdiv fp (fadd fp (Num (- hydro_b fp B z i))
                               (fsqrt fp (hydro_disc fp B z accum dx K i hp))) (Num 2)")
  case (Num h)
  then show ?thesis using assms by (simp add: hydro_node_def Let_def)
next
  case NaN
  then show ?thesis by (simp add: hydro_node_def Let_def)
qed

lemma computeHydro_clamped_or_NaN:
  assumes "length z \<le> length B" and "length z \<le> length accum"
    and "\<forall>i<length z. fp_sub fp (z ! i) (B ! i) \<le> z ! i"
  shows "\<exists>H. computeHydro fp B z accum dx K = Inr H \<and> length H = length z
     \<and> (\<forall>i<length z. H ! i = NaN
            \<or> (\<exists>r. H ! i = Num r \<and> fp_sub fp (z ! i) (B ! i) \<le> r \<and> r \<le> z ! i))"
proof -
  obtain H where run: "computeHydro fp B z accum dx K = Inr H" and len: "length H = length z"
    and first: "0 < length z \<longrightarrow> H ! 0 = Num (z ! 0)"
    and rec: "\<forall>i. 1 \<le> i \<and> i < length z \<longrightarrow>
                H ! i = hydro_node fp B z accum dx K i (H ! (i - 1))"
    using computeHydro_rec [OF assms(1) assms(2), of fp dx K] by blast
  have "H ! i = NaN \<or> (\<exists>r. H ! i = Num r \<and> fp_sub fp (z ! i) (B ! i) \<le> r \<and> r \<le> z ! i)"
    if i: "i < length z" for i
  proof (cases i)
    case 0
    then show ?thesis using first i assms(3) by auto
  next
    case (Suc j)
    then have "H ! i = hydro_node fp B z accum dx K i (H ! (i - 1))" using rec i by simp
    then show ?thesis
      using hydro_node_clamped [of fp z i B accum dx K "H ! (i - 1)"] assms(3) i by simp
  qed
  then show ?thesis using run len by blast
qed

subsection \<open>The recurrence without rounding\<close>

text \<open>
  In exact arithmetic the discriminant at a node whose left neighbour is the number
  \<open>hp\<close> is \<open>(b + 2 hp)\<^sup>2 + 8 dx accum[i] / K\<close>. For nonnegative thickness and
  infiltration, \<open>dx \<ge> 0\<close> and \<open>K > 0\<close> it is never negative, so no node is \<open>nan\<close>, every
  node lies between \<open>z[i] - B[i]\<close> and \<open>z[i]\<close>, and with no regolith the water table is
  the surface. These are facts about the recurrence, not about the program: the
  discriminant is a difference of two nearly equal doubles and may round below zero, as
  it does on the flat surface \<open>z = [94.42, 94.42]\<close> with \<open>B = accum = [0, 0]\<close> and
  \<open>dx = K = 1\<close>, where \<open>b ** 2\<close> is \<open>35660.5456\<close>, \<open>4 * c\<close> is the next double above and
  the program returns \<open>[94.42, nan]\<close>.
\<close>

lemma hydro_disc_exact:
  "hydro_disc exact_fpu B z accum dx K i (Num h)
     = Num ((hydro_b exact_fpu B z i + 2 * h)\<^sup>2 + 8 * dx * accum ! i / K)"
  by (simp add: hydro_disc_def hydro_c_def hydro_b_def exact_fpu_def power2_eq_square
      algebra_simps)

lemma hydro_node_exact:
  assumes "0 \<le> dx * accum ! i / K"
  shows "hydro_node exact_fpu B z accum dx K i (Num h)
     = Num (max (min ((- hydro_b exact_fpu B z i
                        + sqrt ((hydro_b exact_fpu B z i + 2 * h)\<^sup>2
                                + 8 * dx * accum ! i / K)) / 2)
                     (z ! i))
                (z ! i - B ! i))"
proof -
  let ?d = "(hydro_b exact_fpu B z i + 2 * h)\<^sup>2 + 8 * dx * accum ! i / K"
  have "0 \<le> 8 * (dx * accum ! i / K)" using assms by simp
  then have "0 \<le> ?d" by (simp add: algebra_simps)
  then have nn: "\<not> ?d < 0" by simp
  have ops: "fp_add exact_fpu = (+)" "fp_sub exact_fpu = (-)" "fp_div exact_fpu = (/)"
    "fp_sqrt exact_fpu = sqrt"
    by (simp_all add: exact_fpu_def)
  show ?thesis
    unfolding hydro_node_def hydro_disc_exact Let_def
    using nn by (simp add: ops max_def min_def)
qed

lemma computeHydro_exact_bounds:
  assumes "length B = length z" and "length accum = length z"
    and "0 < K" and "0 \<le> dx"
    and "\<forall>a\<in>set accum. 0 \<le> a" and "\<forall>b\<in>set B. 0 \<le> b"
  shows "\<exists>H. computeHydro exact_fpu B z accum dx K = Inr H \<and> length H = length z
     \<and> (\<forall>i<length z. \<exists>h. H ! i = Num h \<and> z ! i - B ! i \<le> h \<and> h \<le> z ! i)"
proof -
  obtain H where run: "computeHydro exact_fpu B z accum dx K = Inr H"
    and len: "length H = length z"
    and first: "0 < length z \<longrightarrow> H ! 0 = Num (z ! 0)"
    and rec: "\<forall>i. 1 \<le> i \<and> i < length z \<longrightarrow>
                H ! i = hydro_node exact_fpu B z accum dx K i (H ! (i - 1))"
    using computeHydro_rec [of z B accum exact_fpu dx K] assms(1) assms(2) by auto
  have q: "0 \<le> dx * accum ! i / K" if "i < length z" for i
  proof -
    have "accum ! i \<in> set accum" using that assms(2) by simp
    then have "0 \<le> accum ! i" using assms(5) by blast
    then show ?thesis using assms(3) assms(4) by simp
  qed
  have thick: "0 \<le> B ! i" if "i < length z" for i
  proof -
    have "B ! i \<in> set B" using that assms(1) by simp
    then show ?thesis using assms(6) by blast
  qed
  have "\<exists>h. H ! i = Num h \<and> z ! i - B ! i \<le> h \<and> h \<le> z ! i" if "i < length z" for i
    using that
  proof (induction i)
    case 0
    then show ?case using first thick [of 0] by simp
  next
    case (Suc i)
    then obtain h where h: "H ! i = Num h" by auto
    have "H ! Suc i = hydro_node exact_fpu B z accum dx K (Suc i) (Num h)"
      using rec Suc.prems h by simp
    then show ?case
      using thick [OF Suc.prems] by (simp add: hydro_node_exact [OF q [OF Suc.prems]])
  qed
  then show ?thesis using run len by blast
qed

lemma computeHydro_exact_no_capacity:
  assumes "length B = length z" and "length accum = length z"
    and "0 < K" and "0 \<le> dx"
    and "\<forall>a\<in>set accum. 0 \<le> a" and "\<forall>b\<in>set B. b = 0"
  shows "\<exists>H. computeHydro exact_fpu B z accum dx K = Inr H \<and> length H = length z
     \<and> (\<forall>i<length z. H ! i = Num (z ! i))"
proof -
  obtain H where run: "computeHydro exact_fpu B z accum dx K = Inr H"
    and len: "length H = length z"
    and first: "0 < length z \<longrightarrow> H ! 0 = Num (z ! 0)"
    and rec: "\<forall>i. 1 \<le> i \<and> i < length z \<longrightarrow>
                H ! i = hydro_node exact_fpu B z accum dx K i (H ! (i - 1))"
    using computeHydro_rec [of z B accum exact_fpu dx K] assms(1) assms(2) by auto
  have q: "0 \<le> dx * accum ! i / K" if "i < length z" for i
  proof -
    have "accum ! i \<in> set accum" using that assms(2) by simp
    then have "0 \<le> accum ! i" using assms(5) by blast
    then show ?thesis using assms(3) assms(4) by simp
  qed
  have thin: "B ! i = 0" if "i < length z" for i
  proof -
    have "B ! i \<in> set B" using that assms(1) by simp
    then show ?thesis using assms(6) by blast
  qed
  have "H ! i = Num (z ! i)" if "i < length z" for i
    using that
  proof (induction i)
    case 0
    then show ?case using first by simp
  next
    case (Suc i)
    then have h: "H ! i = Num (z ! i)" by simp
    have "H ! Suc i = hydro_node exact_fpu B z accum dx K (Suc i) (Num (z ! i))"
      using rec Suc.prems h by simp
    then show ?case
      using thin [OF Suc.prems] by (simp add: hydro_node_exact [OF q [OF Suc.prems]])
  qed
  then show ?thesis using run len by blast
qed

subsection \<open>A negative discriminant\<close>

text \<open>
  C2, as stated, fails: with \<open>z = B = [0, 0]\<close>, \<open>accum = [0, -1]\<close>, \<open>dx = K = 1\<close> the
  discriminant at node 1 is \<open>-8\<close>, and \<open>computeHydro\<close> returns an array whose node 1 is
  \<open>nan\<close> instead of signalling an error. Every value of this run is a small integer, so
  double arithmetic computes it without rounding.
\<close>

theorem computeHydro_negative_disc_counterexample:
  "hydro_disc exact_fpu [0, 0] [0, 0] [0, - 1] 1 1 1 (Num 0) = Num (- 8)
   \<and> computeHydro exact_fpu [0, 0] [0, 0] [0, - 1] 1 1 = Inr [Num 0, NaN]"
  by (simp add: computeHydro_def hydro_node_def hydro_disc_def hydro_c_def hydro_b_def
      exact_fpu_def upt_rec)

text \<open>
  C2, amended. \<open>computeHydro\<close> has no check of the discriminant and raises no domain
  error. In every arithmetic, for \<open>K \<noteq> 0\<close> and arrays \<open>B\<close>, \<open>accum\<close> at least as long as
  \<open>z\<close>, it always returns an array \<open>H\<close> of the length of \<open>z\<close>; when the discriminant
  \<open>b\<^sup>2 - 4 c\<close> computed at a node \<open>i \<ge> 1\<close> from \<open>H[i - 1]\<close> is negative, \<open>H[i]\<close>
  and every later node of \<open>H\<close> are \<open>nan\<close>.
\<close>

theorem computeHydro_negative_disc_gives_NaN:
  assumes "length z \<le> length B" and "length z \<le> length accum" and "K \<noteq> 0"
  shows "\<exists>H. computeHydro fp B z accum dx K = Inr H \<and> length H = length z
     \<and> (0 < length z \<longrightarrow> H ! 0 = Num (z ! 0))
     \<and> (\<forall>i d. 1 \<le> i \<and> i < length z
            \<and> hydro_disc fp B z accum dx K i (H ! (i - 1)) = Num d \<and> d < 0
          \<longrightarrow> (\<forall>j. i \<le> j \<and> j < length z \<longrightarrow> H ! j = NaN))"
proof -
  obtain H where run: "computeHydro fp B z accum dx K = Inr H" and len: "length H = length z"
    and first: "0 < length z \<longrightarrow> H ! 0 = Num (z ! 0)"
    and rec: "\<forall>i. 1 \<le> i \<and> i < length z \<longrightarrow>
                H ! i = hydro_node fp B z accum dx K i (H ! (i - 1))"
    using computeHydro_rec [OF assms(1) assms(2), of fp dx K] by blast
  have "H ! j = NaN"
    if i: "1 \<le> i" "i < length z"
      and neg: "hydro_disc fp B z accum dx K i (H ! (i - 1)) = Num d" "d < 0"
      and j: "i \<le> j" "j < length z" for i d j
    using j
  proof (induction j)
    case 0
    then show ?case using i by simp
  next
    case (Suc j)
    have node: "H ! Suc j = hydro_node fp B z accum dx K (Suc j) (H ! j)"
      using rec Suc.prems by simp
    show ?case
    proof (cases "i = Suc j")
      case True
      then show ?thesis using node hydro_node_negative_disc [OF neg] by simp
    next
      case False
      then have "i \<le> j" "j < length z" using Suc.prems by simp_all
      then have "H ! j = NaN" by (rule Suc.IH)
      then show ?thesis using node by simp
    qed
  qed
  then show ?thesis using run len first by blast
qed

theorem computeHydro_negative_disc_gives_NaN_witness:
  "computeHydro exact_fpu [0, 0, 0] [0, 0, 0] [0, - 1, 0] 1 1 = Inr [Num 0, NaN, NaN]"
proof -
  let ?B = "[0, 0, 0::real]"
  let ?a = "[0, - 1, 0::real]"
  have h1: "length ?B \<le> length ?B" by simp
  have h2: "length ?B \<le> length ?a" by simp
  have h3: "(1::real) \<noteq> 0" by simp
  obtain H where run: "computeHydro exact_fpu ?B ?B ?a 1 1 = Inr H"
    and len: "length H = length ?B"
    and first: "0 < length ?B \<longrightarrow> H ! 0 = Num (?B ! 0)"
    and nan: "\<forall>i d. 1 \<le> i \<and> i < length ?B
            \<and> hydro_disc exact_fpu ?B ?B ?a 1 1 i (H ! (i - 1)) = Num d \<and> d < 0
          \<longrightarrow> (\<forall>j. i \<le> j \<and> j < length ?B \<longrightarrow> H ! j = NaN)"
    using computeHydro_negative_disc_gives_NaN [OF h1 h2 h3, of exact_fpu 1] by blast
  have f: "H ! 0 = Num 0" using first by simp
  have d: "hydro_disc exact_fpu ?B ?B ?a 1 1 1 (H ! (1 - 1)) = Num (- 8)"
    by (simp add: f hydro_disc_def hydro_c_def hydro_b_def exact_fpu_def)
  have later: "\<forall>j. 1 \<le> j \<and> j < length ?B \<longrightarrow> H ! j = NaN"
    using nan [rule_format, of 1 "- 8"] d by simp
  have "H = [Num 0, NaN, NaN]"
  proof (rule nth_equalityI)
    show "length H = length [Num 0, NaN, NaN]" using len by simp
  next
    fix i assume "i < length H"
    then have "i = 0 \<or> i = 1 \<or> i = 2" using len by auto
    then show "H ! i = [Num 0, NaN, NaN] ! i"
      using f later [rule_format, of 1] later [rule_format, of 2]
      by (auto simp: numeral_eq_Suc)
  qed
  with run show ?thesis by simp
qed

section \<open>Validation of the geometry parameters\<close>

text \<open>
  C4, as stated, fails: \<open>Geom.initialize\<close> with \<open>length = -1\<close> and \<open>nx = 3\<close> raises
  no error and returns the descending ramp \<open>[0, -1/2, -1]\<close>.
\<close>

theorem Geom_initialize_unvalidated_counterexample:
  "Geom_initialize \<lparr>Geom_length = - 1, Geom_slope = 0, Geom_nx = 3\<rparr>
     = Inr (- 1, [0, - (1 / 2), - 1])"
  by (simp add: Geom_initialize_def linspace_def Let_def upt_rec numeral_eq_Suc)

text \<open>
  C4, amended. \<open>Geom.initialize\<close> validates neither \<open>length\<close> nor \<open>nx\<close>: it fails only
  through \<open>np.linspace\<close>, exactly when \<open>nx < 0\<close>. For \<open>nx \<ge> 2\<close> and any \<open>length\<close>,
  positive or not, it produces \<open>nx\<close> node positions \<open>i * length / (nx - 1)\<close>, from 0 to
  \<open>length\<close> inclusive, and \<open>Erosion.initialize\<close> on that profile and \<open>L = length\<close>
  exposes \<open>dx = length / (nx - 1)\<close>.
\<close>

theorem Geom_initialize_no_validation:
  "(\<exists>r. Geom_initialize g = Inr r) = (0 \<le> Geom_nx g)
   \<and> (2 \<le> Geom_nx g \<longrightarrow>
        (\<exists>z. Geom_initialize g = Inr (Geom_length g, z)
           \<and> length z = nat (Geom_nx g)
           \<and> (\<forall>i<nat (Geom_nx g). z ! i = real i * Geom_length g / real_of_int (Geom_nx g - 1))
           \<and> z ! 0 = 0
           \<and> z ! (nat (Geom_nx g) - 1) = Geom_length g
           \<and> Erosion_dx (Erosion_initialize (e\<lparr>Erosion_L := Geom_length g, Erosion_surface := z\<rparr>))
               = Geom_length g / real_of_int (Geom_nx g - 1)))"
proof -
  have fails: "(\<exists>r. Geom_initialize g = Inr r) = (0 \<le> Geom_nx g)"
    by (auto simp: Geom_initialize_def linspace_def Let_def)
  have ramp: "\<exists>z. Geom_initialize g = Inr (Geom_length g, z)
           \<and> length z = nat (Geom_nx g)
           \<and> (\<forall>i<nat (Geom_nx g). z ! i = real i * Geom_length g / real_of_int (Geom_nx g - 1))
           \<and> z ! 0 = 0
           \<and> z ! (nat (Geom_nx g) - 1) = Geom_length g
           \<and> Erosion_dx (Erosion_initialize (e\<lparr>Erosion_L := Geom_length g, Erosion_surface := z\<rparr>))
               = Geom_length g / real_of_int (Geom_nx g - 1)"
    if nx: "2 \<le> Geom_nx g"
  proof -
    obtain z where lin: "linspace 0 (Geom_length g) (Geom_nx g) = Inr z"
      and len: "length z = nat (Geom_nx g)"
      and nodes: "\<forall>i<nat (Geom_nx g). z ! i = real i * Geom_length g / real_of_int (Geom_nx g - 1)"
      using linspace_ramp [OF nx] by blast
    have z0: "z ! 0 = 0" using nodes nx by simp
    have "z ! (nat (Geom_nx g) - 1)
            = real (nat (Geom_nx g) - 1) * Geom_length g / real_of_int (Geom_nx g - 1)"
      using nodes nx by simp
    also have "\<dots> = Geom_length g" using nx by simp
    finally have zl: "z ! (nat (Geom_nx g) - 1) = Geom_length g" .
    have dx: "Erosion_dx (Erosion_initialize (e\<lparr>Erosion_L := Geom_length g, Erosion_surface := z\<rparr>))
               = Geom_length g / real_of_int (Geom_nx g - 1)"
      using nx by (simp add: Erosion_initialize_def len)
    show ?thesis using lin len nodes z0 zl dx by (simp add: Geom_initialize_def)
  qed
  from fails ramp show ?thesis by blast
qed

theorem Geom_initialize_no_validation_witness:
  "2 \<le> Geom_nx \<lparr>Geom_length = - 2, Geom_slope = 0, Geom_nx = 3\<rparr>
   \<and> Geom_initialize \<lparr>Geom_length = - 2, Geom_slope = 0, Geom_nx = 3\<rparr>
       = Inr (- 2, [0, - 1, - 2])
   \<and> Erosion_dx (Erosion_initialize
         \<lparr>Erosion_kd = Scalar 1, Erosion_surface = [0, - 1, - 2], Erosion_L = - 2,
          Erosion_dx = 0, Erosion_dtopo = []\<rparr>) = - 1"
proof -
  let ?g = "\<lparr>Geom_length = - 2, Geom_slope = 0, Geom_nx = 3\<rparr>"
  let ?e = "\<lparr>Erosion_kd = Scalar 1, Erosion_surface = [], Erosion_L = 0,
             Erosion_dx = 0, Erosion_dtopo = []\<rparr>"
  have nx: "2 \<le> Geom_nx ?g" by simp
  obtain z where init: "Geom_initialize ?g = Inr (Geom_length ?g, z)"
    and len: "length z = nat (Geom_nx ?g)"
    and nodes: "\<forall>i<nat (Geom_nx ?g). z ! i = real i * Geom_length ?g / real_of_int (Geom_nx ?g - 1)"
    and dx: "Erosion_dx (Erosion_initialize (?e\<lparr>Erosion_L := Geom_length ?g, Erosion_surface := z\<rparr>))
               = Geom_length ?g / real_of_int (Geom_nx ?g - 1)"
    using Geom_initialize_no_validation [where g = ?g and e = ?e] nx by blast
  have shape: "z = [0, - 1, - 2]"
  proof (rule nth_equalityI)
    show "length z = length [0, - 1, - 2::real]" using len by simp
  next
    fix i assume "i < length z"
    then have i: "i < nat (Geom_nx ?g)" using len by simp
    then have "i = 0 \<or> i = 1 \<or> i = 2" by auto
    then show "z ! i = [0, - 1, - 2::real] ! i"
      using nodes [rule_format, OF i] by (auto simp: numeral_eq_Suc)
  qed
  show ?thesis using nx init dx unfolding shape by simp
qed

end
